theory Spec2Isabelle
  imports Main "HOL-Library.Sublist"
begin

section \<open>The debugging pipeline of \<^verbatim>\<open>src/code.py\<close>\<close>

text \<open>
  The program wires six agent functions into a graph (\<^verbatim>\<open>create_workflow\<close>), runs the
  graph from \<^verbatim>\<open>main\<close> and keeps a session history. The agents are plain functions
  from the agent state to a partial update of it; the text-generation backend is the
  only external collaborator.

  A Python \<^verbatim>\<open>str\<close> is a sequence of Unicode code points: it is modelled as a list of
  natural numbers, and \<open>str\<close> turns an ASCII literal into one.
\<close>

type_synonym pystr = "nat list"

definition str :: "string \<Rightarrow> pystr" where
  "str cs = map of_char cs"

subsection \<open>Data\<close>

text \<open>\<^verbatim>\<open>AIMessage(content=...)\<close> and \<^verbatim>\<open>HumanMessage(content=...)\<close>.\<close>

datatype message = AIMessage pystr | HumanMessage pystr

fun content :: "message \<Rightarrow> pystr" where
  "content (AIMessage c) = c"
| "content (HumanMessage c) = c"

text \<open>\<^verbatim>\<open>class AgentState(TypedDict)\<close>, lines 20-24.\<close>

record AgentState =
  code :: pystr
  messages :: "message list"
  iteration :: int
  max_iterations :: int

text \<open>
  What a node returns: a dictionary with the key \<^verbatim>\<open>"messages"\<close> and, for the planner
  only, the key \<^verbatim>\<open>"iteration"\<close>.
\<close>

record update =
  upd_messages :: "message list"
  upd_iteration :: "int option"

text \<open>
  The graph merges an update into the state: \<^verbatim>\<open>messages\<close> is annotated with the reducer
  \<^verbatim>\<open>lambda a, b: a + b\<close> (line 22), every other key that is present is overwritten.
\<close>

definition apply_update :: "AgentState \<Rightarrow> update \<Rightarrow> AgentState" where
  "apply_update s u =
     s\<lparr>messages := messages s @ upd_messages u,
       iteration := (case upd_iteration u of None \<Rightarrow> iteration s | Some i \<Rightarrow> i)\<rparr>"

text \<open>
  The exceptions a run of the graph can end with: the \<^verbatim>\<open>IndexError\<close> of
  \<^verbatim>\<open>state['messages'][-1]\<close> on an empty list, and the \<^verbatim>\<open>GraphRecursionError\<close> the graph
  library raises when a run needs more steps than its recursion limit.
\<close>

datatype py_error = IndexError | GraphRecursionError

subsection \<open>The backend and \<^verbatim>\<open>call_gemini\<close>\<close>

text \<open>
  The backend is outside the program. A call either returns the generated text (\<open>Inr\<close>)
  or raises an exception, of which only the message matters (\<open>Inl\<close>). It may answer
  differently from one call to the next, so it also reads the number of calls made so
  far; that counter is threaded through the agents.
\<close>

type_synonym backend = "nat \<Rightarrow> pystr \<Rightarrow> pystr + pystr"

text \<open>Lines 27-34: every exception of the call is caught and turned into a text.\<close>

definition call_gemini :: "backend \<Rightarrow> nat \<Rightarrow> pystr \<Rightarrow> pystr \<times> nat" where
  "call_gemini b k prompt =
     (case b k prompt of
        Inr text \<Rightarrow> (text, Suc k)
      | Inl e \<Rightarrow> (str ''Error calling Gemini API: '' @ e, Suc k))"

subsection \<open>The agents\<close>

definition NL :: pystr where
  "NL = [0x0A]"

text \<open>\<^verbatim>\<open>state['messages'][-1].content\<close>: raises IndexError on an empty list.\<close>

definition last_message :: "AgentState \<Rightarrow> py_error + pystr" where
  "last_message s =
     (case messages s of [] \<Rightarrow> Inl IndexError | _ # _ \<Rightarrow> Inr (content (last (messages s))))"

definition code_parser_prompt :: "pystr \<Rightarrow> pystr" where
  "code_parser_prompt c =
     str ''You are a senior Python code parser. Analyze the structure of this code:'' @ NL @ NL
     @ c @ NL @ NL
     @ str ''Provide a concise analysis of the code structure, including:'' @ NL
     @ str ''- Functions defined'' @ NL
     @ str ''- Classes defined'' @ NL
     @ str ''- Loops and conditionals'' @ NL
     @ str ''- Import statements'' @ NL
     @ str ''- Overall code organization''"

definition bug_detection_prompt :: "pystr \<Rightarrow> pystr \<Rightarrow> pystr" where
  "bug_detection_prompt c lm =
     str ''You are an expert bug hunter. Find potential errors in this code:'' @ NL @ NL
     @ c @ NL @ NL
     @ str ''Previous analysis:'' @ NL
     @ lm @ NL @ NL
     @ str ''Identify potential bugs including:'' @ NL
     @ str ''- Syntax errors'' @ NL
     @ str ''- Runtime errors'' @ NL
     @ str ''- Logical errors'' @ NL
     @ str ''- Potential exceptions'' @ NL
     @ str ''- Type mismatches'' @ NL
     @ str ''- Variable scope issues''"

definition bug_explainer_prompt :: "pystr \<Rightarrow> pystr" where
  "bug_explainer_prompt lm =
     str ''Explain the bug in simple terms for a junior developer:'' @ NL @ NL
     @ lm @ NL @ NL
     @ str ''Provide:'' @ NL
     @ str ''- Simple explanation of the error'' @ NL
     @ str ''- Why it occurs'' @ NL
     @ str ''- When it might occur'' @ NL
     @ str ''- Real-world analogy to help understanding''"

definition socratic_guide_prompt :: "pystr \<Rightarrow> pystr" where
  "socratic_guide_prompt lm =
     str ''Ask a Socratic question to help the user understand the root cause:'' @ NL @ NL
     @ lm @ NL @ NL
     @ str ''Formulate a question that:'' @ NL
     @ str ''- Encourages critical thinking'' @ NL
     @ str ''- Helps user discover the solution themselves'' @ NL
     @ str ''- Relates to programming concepts'' @ NL
     @ str ''- Is open-ended and thought-provoking''"

definition refiner_prompt :: "pystr \<Rightarrow> pystr" where
  "refiner_prompt lm =
     str ''Provide a specific hint to fix the bug without giving the full solution:'' @ NL @ NL
     @ lm @ NL @ NL
     @ str ''Offer:'' @ NL
     @ str ''- A clear but partial hint'' @ NL
     @ str ''- Direction to resources'' @ NL
     @ str ''- Similar examples'' @ NL
     @ str ''- Pseudo-code suggestion'' @ NL
     @ str ''- But NOT the complete solution''"

text \<open>An agent that asks the backend: the prompt goes out, the answer comes back as one
  \<^verbatim>\<open>AIMessage\<close>.\<close>

definition respond :: "backend \<Rightarrow> nat \<Rightarrow> pystr \<Rightarrow> update \<times> nat" where
  "respond b k prompt =
     (case call_gemini b k prompt of
        (response, k') \<Rightarrow> (\<lparr>upd_messages = [AIMessage response], upd_iteration = None\<rparr>, k'))"

definition code_parser_agent :: "backend \<Rightarrow> nat \<Rightarrow> AgentState \<Rightarrow> py_error + update \<times> nat" where
  "code_parser_agent b k s = Inr (respond b k (code_parser_prompt (code s)))"

definition bug_detection_agent :: "backend \<Rightarrow> nat \<Rightarrow> AgentState \<Rightarrow> py_error + update \<times> nat" where
  "bug_detection_agent b k s =
     (case last_message s of
        Inl e \<Rightarrow> Inl e
      | Inr lm \<Rightarrow> Inr (respond b k (bug_detection_prompt (code s) lm)))"

definition bug_explainer_agent :: "backend \<Rightarrow> nat \<Rightarrow> AgentState \<Rightarrow> py_error + update \<times> nat" where
  "bug_explainer_agent b k s =
     (case last_message s of
        Inl e \<Rightarrow> Inl e
      | Inr lm \<Rightarrow> Inr (respond b k (bug_explainer_prompt lm)))"

definition socratic_guide_agent :: "backend \<Rightarrow> nat \<Rightarrow> AgentState \<Rightarrow> py_error + update \<times> nat" where
  "socratic_guide_agent b k s =
     (case last_message s of
        Inl e \<Rightarrow> Inl e
      | Inr lm \<Rightarrow> Inr (respond b k (socratic_guide_prompt lm)))"

definition refiner_agent :: "backend \<Rightarrow> nat \<Rightarrow> AgentState \<Rightarrow> py_error + update \<times> nat" where
  "refiner_agent b k s =
     (case last_message s of
        Inl e \<Rightarrow> Inl e
      | Inr lm \<Rightarrow> Inr (respond b k (refiner_prompt lm)))"

text \<open>The two texts start with the emoji U+1F501 and U+1F504.\<close>

definition cycles_reached_text :: pystr where
  "cycles_reached_text =
     [0x1F501] @ str '' Maximum debugging cycles reached. Analysis complete.''"

definition next_cycle_text :: pystr where
  "next_cycle_text = [0x1F504] @ str '' Planning next debugging cycle...''"

text \<open>Lines 112-118. The planner makes no backend call.\<close>

definition planner_agent :: "AgentState \<Rightarrow> update" where
  "planner_agent s =
     (let new_iteration = iteration s + 1;
          content = (if new_iteration \<ge> max_iterations s then cycles_reached_text
                     else next_cycle_text)
      in \<lparr>upd_messages = [HumanMessage content], upd_iteration = Some new_iteration\<rparr>)"

subsection \<open>The graph of \<^verbatim>\<open>create_workflow\<close>\<close>

datatype node = code_parser | bug_detector | bug_explainer | socratic_guide | refiner | planner

datatype target = Node node | END

text \<open>\<^verbatim>\<open>add_node\<close>, lines 125-130.\<close>

fun run_node :: "backend \<Rightarrow> nat \<Rightarrow> node \<Rightarrow> AgentState \<Rightarrow> py_error + update \<times> nat" where
  "run_node b k code_parser s = code_parser_agent b k s"
| "run_node b k bug_detector s = bug_detection_agent b k s"
| "run_node b k bug_explainer s = bug_explainer_agent b k s"
| "run_node b k socratic_guide s = socratic_guide_agent b k s"
| "run_node b k refiner s = refiner_agent b k s"
| "run_node b k planner s = Inr (planner_agent s, k)"

text \<open>Lines 143-146.\<close>

definition should_continue :: "AgentState \<Rightarrow> target" where
  "should_continue s =
     (if iteration s \<ge> max_iterations s then END else Node code_parser)"

text \<open>\<^verbatim>\<open>add_edge\<close>, lines 136-140, and \<^verbatim>\<open>add_conditional_edges\<close>, lines 148-155; the
  condition reads the state the planner's update has been merged into.\<close>

fun next_target :: "node \<Rightarrow> AgentState \<Rightarrow> target" where
  "next_target code_parser s = Node bug_detector"
| "next_target bug_detector s = Node bug_explainer"
| "next_target bug_explainer s = Node socratic_guide"
| "next_target socratic_guide s = Node refiner"
| "next_target refiner s = Node planner"
| "next_target planner s = should_continue s"

text \<open>
  Running the compiled graph. Each executed node gives one entry: the node, the update it
  returned (what \<^verbatim>\<open>stream\<close> yields, \<^verbatim>\<open>{node: update}\<close>) and the state after the merge.
  An exception in a node ends the run; the entries before it have been yielded already.

  The executor is the graph library's, not the program's. It runs one node per step and
  allows a run a bounded number of steps, its recursion limit: \<open>run_from b l k n s\<close> has
  \<open>l\<close> steps left, and when a node is due with no step left the run ends with
  \<^verbatim>\<open>GraphRecursionError\<close>.
\<close>

record run_result =
  steps :: "(node \<times> update \<times> AgentState) list"
  raised :: "py_error option"
  calls :: nat

fun run_from :: "backend \<Rightarrow> nat \<Rightarrow> nat \<Rightarrow> node \<Rightarrow> AgentState \<Rightarrow> run_result" where
  "run_from b 0 k n s = \<lparr>steps = [], raised = Some GraphRecursionError, calls = k\<rparr>"
| "run_from b (Suc l) k n s =
     (case run_node b k n s of
        Inl e \<Rightarrow> \<lparr>steps = [], raised = Some e, calls = k\<rparr>
      | Inr (u, k') \<Rightarrow>
          (case next_target n (apply_update s u) of
             END \<Rightarrow> \<lparr>steps = [(n, u, apply_update s u)], raised = None, calls = k'\<rparr>
           | Node n' \<Rightarrow>
               (let r = run_from b l k' n' (apply_update s u)
                in r\<lparr>steps := (n, u, apply_update s u) # steps r\<rparr>)))"

declare run_from.simps [simp del]

text \<open>
  \<^verbatim>\<open>compile()\<close> (line 157) and \<^verbatim>\<open>stream(initial_state)\<close> (line 467) pass no configuration,
  so the library's default recursion limit applies: 25 steps.
\<close>

definition recursion_limit :: nat where
  "recursion_limit = 25"

text \<open>How far a node is from the end of its pass.\<close>

fun rank :: "node \<Rightarrow> nat" where
  "rank code_parser = 6"
| "rank bug_detector = 5"
| "rank bug_explainer = 4"
| "rank socratic_guide = 3"
| "rank refiner = 2"
| "rank planner = 1"

text \<open>\<^verbatim>\<open>set_entry_point("code_parser")\<close>, line 133, and the initial state of lines 445-450.\<close>

definition run :: "backend \<Rightarrow> nat \<Rightarrow> nat \<Rightarrow> AgentState \<Rightarrow> run_result" where
  "run b l k s = run_from b l k code_parser s"

definition initial_state :: "pystr \<Rightarrow> int \<Rightarrow> AgentState" where
  "initial_state c n = \<lparr>code = c, messages = [], iteration = 0, max_iterations = n\<rparr>"

text \<open>What \<^verbatim>\<open>stream\<close> yields, and the state the run ends in.\<close>

definition stream_outputs :: "run_result \<Rightarrow> (node \<times> update) list" where
  "stream_outputs r = map (\<lambda>(n, u, s). (n, u)) (steps r)"

definition pipeline :: "node list" where
  "pipeline = [code_parser, bug_detector, bug_explainer, socratic_guide, refiner, planner]"

text \<open>The state a run ends in: the state after its last step.\<close>

definition final_state :: "AgentState \<Rightarrow> run_result \<Rightarrow> AgentState" where
  "final_state s r = (case steps r of [] \<Rightarrow> s | _ # _ \<Rightarrow> snd (snd (last (steps r))))"

subsection \<open>The submission handler of \<^verbatim>\<open>main\<close>\<close>

text \<open>
  \<^verbatim>\<open>str.strip()\<close> with no argument removes leading and trailing whitespace: the code
  points Python's \<^verbatim>\<open>str.isspace\<close> accepts, U+0009 to U+000D, U+001C to U+0020, U+0085,
  U+00A0, U+1680, U+2000 to U+200A, U+2028, U+2029, U+202F, U+205F and U+3000.
\<close>

definition is_space :: "nat \<Rightarrow> bool" where
  "is_space c =
     ((0x09 \<le> c \<and> c \<le> 0x0D) \<or> (0x1C \<le> c \<and> c \<le> 0x20) \<or> c = 0x85 \<or> c = 0xA0
      \<or> c = 0x1680 \<or> (0x2000 \<le> c \<and> c \<le> 0x200A) \<or> c = 0x2028 \<or> c = 0x2029
      \<or> c = 0x202F \<or> c = 0x205F \<or> c = 0x3000)"

definition strip :: "pystr \<Rightarrow> pystr" where
  "strip s = rev (dropWhile is_space (rev (dropWhile is_space s)))"

text \<open>The dictionaries \<^verbatim>\<open>{"code": ..., "messages": ...}\<close> of the session history.\<close>

record session =
  sess_code :: pystr
  sess_messages :: "message list"

text \<open>\<^verbatim>\<open>st.session_state\<close>, lines 287-294.\<close>

record session_state =
  session_history :: "session list"
  current_session :: session
  st_max_iterations :: int
  iteration_count :: int

text \<open>
  What the handler shows. \<open>AgentMessage\<close> is
  \<^verbatim>\<open>display_message(node, last_message, current_iteration)\<close>; \<open>WorkflowError\<close> is the
  \<^verbatim>\<open>st.error\<close> of line 485 for the exception caught; \<open>Summary\<close> carries the three numbers
  of lines 520-522.
\<close>

datatype ui_event =
    ApiKeyError
  | SystemStart
  | SystemMaxCycles int
  | AgentMessage node pystr int
  | WorkflowError py_error
  | StatusWarning
  | StatusSuccess
  | Summary int nat nat

text \<open>
  Lines 467-482, the loop over the streamed outputs. It carries \<^verbatim>\<open>current_iteration\<close>
  and \<^verbatim>\<open>st.session_state.iteration_count\<close>; an output with no message shows nothing.
\<close>

fun display_outputs ::
  "int \<times> int \<Rightarrow> (node \<times> update) list \<Rightarrow> (int \<times> int) \<times> ui_event list" where
  "display_outputs (cur, cnt) [] = ((cur, cnt), [])"
| "display_outputs (cur, cnt) ((n, u) # rest) =
     (case upd_messages u of
        [] \<Rightarrow> display_outputs (cur, cnt) rest
      | _ # _ \<Rightarrow>
          (let cur' = (if n = planner
                       then (case upd_iteration u of None \<Rightarrow> 0 | Some i \<Rightarrow> i)
                       else cur);
               cnt' = (if n = planner then cur' else cnt);
               (final, evs) = display_outputs (cur', cnt') rest
           in (final, AgentMessage n (content (last (upd_messages u))) cur' # evs)))"

text \<open>\<^verbatim>\<open>os.environ.get("GOOGLE_API_KEY")\<close> is false when unset or empty.\<close>

fun truthy :: "pystr option \<Rightarrow> bool" where
  "truthy None = False"
| "truthy (Some v) = (v \<noteq> [])"

text \<open>
  \<^verbatim>\<open>main\<close>, one script run in which no sidebar or sample button is pressed: the slider
  (line 309) and the handler of lines 435-522. \<open>code_input\<close> is the text of the form's
  text area (line 383), whose initial value is the code of the current session (line
  385): the handler never reads it, it tests and runs
  \<^verbatim>\<open>st.session_state.current_session["code"]\<close>. The graph does not write to
  \<^verbatim>\<open>initial_state\<close>, so \<^verbatim>\<open>initial_state["messages"]\<close> of line 489 is still the empty list
  of line 447. The result is the new session state, what was shown, and the number of
  backend calls made.
\<close>

definition main ::
  "backend \<Rightarrow> nat \<Rightarrow> pystr option \<Rightarrow> int \<Rightarrow> pystr \<Rightarrow> bool \<Rightarrow> session_state
     \<Rightarrow> session_state \<times> ui_event list \<times> nat" where
  "main b k api_key slider code_input submitted st0 =
     (let st = st0\<lparr>st_max_iterations := slider\<rparr> in
      if submitted \<and> strip (sess_code (current_session st)) \<noteq> [] then
        if \<not> truthy api_key then (st, [ApiKeyError], k)
        else
          (let st1 = (if current_session st \<notin> set (session_history st)
                      then st\<lparr>session_history := session_history st @ [current_session st]\<rparr>
                      else st);
               init = initial_state (sess_code (current_session st1)) (st_max_iterations st1);
               r = run b recursion_limit k init;
               ((current_iteration, cnt), shown) =
                 display_outputs (0, iteration_count st1) (stream_outputs r);
               failed = (case raised r of
                           None \<Rightarrow> []
                         | Some e \<Rightarrow> [WorkflowError e]);
               cs = (current_session st1)\<lparr>sess_messages := messages init\<rparr>;
               hist = filter (\<lambda>s. sess_code s \<noteq> sess_code cs) (session_history st1) @ [cs];
               status = (if current_iteration \<ge> st_max_iterations st1 then StatusWarning
                         else StatusSuccess);
               hist' = hist @ [\<lparr>sess_code = sess_code cs, sess_messages = sess_messages cs\<rparr>]
           in (st1\<lparr>current_session := cs, session_history := hist', iteration_count := cnt\<rparr>,
               [SystemStart, SystemMaxCycles (st_max_iterations st1)] @ shown @ failed
                 @ [status, Summary current_iteration 6 (length (sess_messages cs))],
               calls r))
      else (st, [], k))"

text \<open>Whether something shown is a failure report.\<close>

fun is_failure_report :: "ui_event \<Rightarrow> bool" where
  "is_failure_report ApiKeyError = True"
| "is_failure_report (WorkflowError e) = True"
| "is_failure_report e = False"

text \<open>
  Two checks on the steps of a run, read from the state the run starts in. \<open>frame_ok\<close>:
  a step keeps \<^verbatim>\<open>code\<close> and \<^verbatim>\<open>max_iterations\<close>, appends the one message of its update
  to \<^verbatim>\<open>messages\<close>, and changes \<^verbatim>\<open>iteration\<close> only in the planner, by one. \<open>reads_ok\<close>:
  a node that reads \<^verbatim>\<open>state['messages'][-1]\<close> finds a message there.
  \<open>counter_ok i m\<close>: from the count \<open>i\<close>, only the planner changes the counter, by
  one, and no state has a count above \<open>m\<close>.
\<close>

fun frame_ok :: "AgentState \<Rightarrow> (node \<times> update \<times> AgentState) list \<Rightarrow> bool" where
  "frame_ok s [] = True"
| "frame_ok s ((n, u, s') # rest) =
     (code s' = code s \<and> max_iterations s' = max_iterations s
      \<and> length (upd_messages u) = 1 \<and> messages s' = messages s @ upd_messages u
      \<and> iteration s' = (if n = planner then iteration s + 1 else iteration s)
      \<and> frame_ok s' rest)"

fun reads_ok :: "AgentState \<Rightarrow> (node \<times> update \<times> AgentState) list \<Rightarrow> bool" where
  "reads_ok s [] = True"
| "reads_ok s ((n, u, s') # rest) =
     ((n \<in> {code_parser, planner} \<or> last_message s \<noteq> Inl IndexError) \<and> reads_ok s' rest)"

fun counter_ok :: "int \<Rightarrow> int \<Rightarrow> (node \<times> update \<times> AgentState) list \<Rightarrow> bool" where
  "counter_ok i m [] = True"
| "counter_ok i m ((n, u, s) # rest) =
     (iteration s = (if n = planner then i + 1 else i) \<and> iteration s \<le> m
      \<and> counter_ok (iteration s) m rest)"

text \<open>
  The session state a first script run starts from (lines 287-294), and the code the
  \<^verbatim>\<open>Division Error\<close> button puts into the current session (lines 393-396).
\<close>

definition fresh_session_state :: session_state where
  "fresh_session_state =
     \<lparr>session_history = [], current_session = \<lparr>sess_code = [], sess_messages = []\<rparr>,
       st_max_iterations = 3, iteration_count = 0\<rparr>"

definition division_sample :: pystr where
  "division_sample =
     str ''def divide_numbers(a, b):'' @ NL
     @ str ''    return a / b'' @ NL @ NL
     @ str ''result = divide_numbers(10, 0)''"

subsection \<open>How a run unfolds\<close>

lemma run_node_agent:
  assumes "n \<noteq> planner" "n \<noteq> code_parser \<Longrightarrow> messages s \<noteq> []"
  shows "\<exists>t. run_node b k n s = Inr (\<lparr>upd_messages = [AIMessage t], upd_iteration = None\<rparr>, Suc k)"
  using assms
  by (cases n; cases "messages s")
    (auto simp: code_parser_agent_def bug_detection_agent_def bug_explainer_agent_def
      socratic_guide_agent_def refiner_agent_def respond_def call_gemini_def last_message_def
      split: sum.splits prod.splits)

lemma next_target_agent:
  "n \<noteq> planner \<Longrightarrow> \<exists>n'. (\<forall>s. next_target n s = Node n') \<and> rank n = Suc (rank n') \<and> n' \<noteq> code_parser
     \<and> drop (6 - rank n) pipeline = n # drop (6 - rank n') pipeline"
  by (cases n) (auto simp: pipeline_def)

lemma run_from_agent:
  assumes "n \<noteq> planner" "n \<noteq> code_parser \<Longrightarrow> messages s \<noteq> []"
  shows "\<exists>t n'. (\<forall>s. next_target n s = Node n') \<and> rank n = Suc (rank n') \<and> n' \<noteq> code_parser \<and>
     drop (6 - rank n) pipeline = n # drop (6 - rank n') pipeline \<and>
     run_node b k n s = Inr (\<lparr>upd_messages = [AIMessage t], upd_iteration = None\<rparr>, Suc k) \<and>
     run_from b (Suc l) k n s =
       (run_from b l (Suc k) n' (s\<lparr>messages := messages s @ [AIMessage t]\<rparr>))
       \<lparr>steps := (n, \<lparr>upd_messages = [AIMessage t], upd_iteration = None\<rparr>,
                   s\<lparr>messages := messages s @ [AIMessage t]\<rparr>)
                 # steps (run_from b l (Suc k) n' (s\<lparr>messages := messages s @ [AIMessage t]\<rparr>))\<rparr>"
proof -
  from run_node_agent[OF assms, of b k] obtain t where
    t: "run_node b k n s = Inr (\<lparr>upd_messages = [AIMessage t], upd_iteration = None\<rparr>, Suc k)" by blast
  from next_target_agent[OF assms(1)] obtain n' where
    n': "\<And>s. next_target n s = Node n'" "rank n = Suc (rank n')" "n' \<noteq> code_parser"
        "drop (6 - rank n) pipeline = n # drop (6 - rank n') pipeline" by blast
  have "run_from b (Suc l) k n s =
       (run_from b l (Suc k) n' (s\<lparr>messages := messages s @ [AIMessage t]\<rparr>))
       \<lparr>steps := (n, \<lparr>upd_messages = [AIMessage t], upd_iteration = None\<rparr>,
                   s\<lparr>messages := messages s @ [AIMessage t]\<rparr>)
                 # steps (run_from b l (Suc k) n' (s\<lparr>messages := messages s @ [AIMessage t]\<rparr>))\<rparr>"
    by (simp add: run_from.simps t n' apply_update_def Let_def)
  with t n' show ?thesis by blast
qed

lemma run_from_planner_stop:
  "iteration s + 1 \<ge> max_iterations s \<Longrightarrow>
   run_from b (Suc l) k planner s =
     \<lparr>steps = [(planner, planner_agent s, apply_update s (planner_agent s))], raised = None, calls = k\<rparr>"
  by (simp add: run_from.simps apply_update_def Let_def
      planner_agent_def should_continue_def)

lemma run_from_planner_loop:
  "iteration s + 1 < max_iterations s \<Longrightarrow>
   run_from b (Suc l) k planner s =
     (run_from b l k code_parser (apply_update s (planner_agent s)))
     \<lparr>steps := (planner, planner_agent s, apply_update s (planner_agent s))
               # steps (run_from b l k code_parser (apply_update s (planner_agent s)))\<rparr>"
  by (simp add: run_from.simps apply_update_def Let_def
      planner_agent_def should_continue_def)

text \<open>
  Induction along a run that starts where every reading node finds a message: the step
  budget is used up, or an agent runs and the rest follows, or the planner stops, or the
  planner loops back.
\<close>

lemma run_from_cases [consumes 1, case_names budget agent stop loop]:
  assumes pre: "n \<noteq> code_parser \<Longrightarrow> messages s \<noteq> []"
  assumes budget: "\<And>k n s. run_from b 0 k n s = \<lparr>steps = [], raised = Some GraphRecursionError, calls = k\<rparr>
      \<Longrightarrow> P 0 k n s"
  assumes agent: "\<And>l k n s t n'. n \<noteq> planner \<Longrightarrow> (n \<noteq> code_parser \<Longrightarrow> messages s \<noteq> []) \<Longrightarrow>
      (\<And>s. next_target n s = Node n') \<Longrightarrow>
      rank n = Suc (rank n') \<Longrightarrow> n' \<noteq> code_parser \<Longrightarrow>
      drop (6 - rank n) pipeline = n # drop (6 - rank n') pipeline \<Longrightarrow>
      run_node b k n s = Inr (\<lparr>upd_messages = [AIMessage t], upd_iteration = None\<rparr>, Suc k) \<Longrightarrow>
      run_from b (Suc l) k n s =
       (run_from b l (Suc k) n' (s\<lparr>messages := messages s @ [AIMessage t]\<rparr>))
       \<lparr>steps := (n, \<lparr>upd_messages = [AIMessage t], upd_iteration = None\<rparr>,
                   s\<lparr>messages := messages s @ [AIMessage t]\<rparr>)
                 # steps (run_from b l (Suc k) n' (s\<lparr>messages := messages s @ [AIMessage t]\<rparr>))\<rparr> \<Longrightarrow>
      P l (Suc k) n' (s\<lparr>messages := messages s @ [AIMessage t]\<rparr>) \<Longrightarrow> P (Suc l) k n s"
  assumes stop: "\<And>l k s. iteration s + 1 \<ge> max_iterations s \<Longrightarrow>
      run_from b (Suc l) k planner s =
        \<lparr>steps = [(planner, planner_agent s, apply_update s (planner_agent s))], raised = None, calls = k\<rparr>
      \<Longrightarrow> P (Suc l) k planner s"
  assumes loop: "\<And>l k s. iteration s + 1 < max_iterations s \<Longrightarrow>
      run_from b (Suc l) k planner s =
       (run_from b l k code_parser (apply_update s (planner_agent s)))
       \<lparr>steps := (planner, planner_agent s, apply_update s (planner_agent s))
               # steps (run_from b l k code_parser (apply_update s (planner_agent s)))\<rparr> \<Longrightarrow>
      P l k code_parser (apply_update s (planner_agent s)) \<Longrightarrow> P (Suc l) k planner s"
  shows "P l k n s"
  using pre
proof (induction l arbitrary: k n s)
  case 0
  show ?case by (rule budget) (simp add: run_from.simps)
next
  case (Suc l)
  show ?case
  proof (cases "n = planner")
    case False
    from run_from_agent[OF False Suc.prems, of b k l] obtain t n' where
      f: "\<And>s. next_target n s = Node n'" "rank n = Suc (rank n')" "n' \<noteq> code_parser"
      "drop (6 - rank n) pipeline = n # drop (6 - rank n') pipeline"
      "run_node b k n s = Inr (\<lparr>upd_messages = [AIMessage t], upd_iteration = None\<rparr>, Suc k)"
      "run_from b (Suc l) k n s =
       (run_from b l (Suc k) n' (s\<lparr>messages := messages s @ [AIMessage t]\<rparr>))
       \<lparr>steps := (n, \<lparr>upd_messages = [AIMessage t], upd_iteration = None\<rparr>,
                   s\<lparr>messages := messages s @ [AIMessage t]\<rparr>)
                 # steps (run_from b l (Suc k) n' (s\<lparr>messages := messages s @ [AIMessage t]\<rparr>))\<rparr>"
      by blast
    have "P l (Suc k) n' (s\<lparr>messages := messages s @ [AIMessage t]\<rparr>)"
      by (rule Suc.IH) simp
    with False Suc.prems f show ?thesis by (intro agent[of n s n' k t l])
  next
    case True
    show ?thesis
    proof (cases "iteration s + 1 \<ge> max_iterations s")
      case True
      with \<open>n = planner\<close> stop run_from_planner_stop show ?thesis by simp
    next
      case False
      then have lt: "iteration s + 1 < max_iterations s" by simp
      have "P l k code_parser (apply_update s (planner_agent s))"
        by (rule Suc.IH) simp
      with lt \<open>n = planner\<close> loop run_from_planner_loop show ?thesis by simp
    qed
  qed
qed

lemma run_from_no_index_error:
  "(n \<noteq> code_parser \<Longrightarrow> messages s \<noteq> []) \<Longrightarrow> raised (run_from b l k n s) \<noteq> Some IndexError"
  by (induction l k n s rule: run_from_cases[where b = b]) simp_all

lemma run_from_frame:
  "(n \<noteq> code_parser \<Longrightarrow> messages s \<noteq> []) \<Longrightarrow> frame_ok s (steps (run_from b l k n s))"
  by (induction l k n s rule: run_from_cases[where b = b])
     (simp_all add: apply_update_def planner_agent_def Let_def)

lemma run_from_reads:
  "(n \<noteq> code_parser \<Longrightarrow> messages s \<noteq> []) \<Longrightarrow> reads_ok s (steps (run_from b l k n s))"
  by (induction l k n s rule: run_from_cases[where b = b])
     (auto simp add: last_message_def split: list.splits)

text \<open>
  The nodes a run executes, and how it ends: the rest of the current pass and the passes
  still to come, cut at the step budget; the recursion error exactly when the budget is
  smaller than that.
\<close>

lemma run_from_nodes:
  "(n \<noteq> code_parser \<Longrightarrow> messages s \<noteq> []) \<Longrightarrow> iteration s < max_iterations s \<Longrightarrow>
   map fst (steps (run_from b l k n s)) =
     take l (drop (6 - rank n) pipeline
       @ concat (replicate (nat (max_iterations s - iteration s) - 1) pipeline))
   \<and> raised (run_from b l k n s) =
     (if l < rank n + 6 * (nat (max_iterations s - iteration s) - 1)
      then Some GraphRecursionError else None)"
proof (induction l k n s rule: run_from_cases[where b = b])
  case (budget k n s)
  have "0 < rank n" by (cases n) simp_all
  with budget show ?case by simp
next
  case (agent l k n s t n')
  then show ?case by simp
next
  case (stop l k s)
  then have "nat (max_iterations s - iteration s) - 1 = 0" by simp
  with stop show ?case by (simp add: pipeline_def)
next
  case (loop l k s)
  let ?s' = "apply_update s (planner_agent s)"
  have i: "iteration ?s' = iteration s + 1" "max_iterations ?s' = max_iterations s"
    by (simp_all add: apply_update_def planner_agent_def Let_def)
  from loop(1) obtain j where j: "nat (max_iterations s - (iteration s + 1)) = Suc j"
    by (cases "nat (max_iterations s - (iteration s + 1))") auto
  then have j': "nat (max_iterations s - iteration s) - 1 = Suc j" by simp
  from loop i have ih: "map fst (steps (run_from b l k code_parser ?s')) =
      take l (pipeline @ concat (replicate j pipeline))"
    "raised (run_from b l k code_parser ?s') =
      (if l < 6 + 6 * j then Some GraphRecursionError else None)"
    by (simp_all add: j)
  from loop(2) ih show ?case
    unfolding j' by (simp add: pipeline_def)
qed

lemma final_state_cons:
  "final_state s (r\<lparr>steps := (n, u, s') # steps r\<rparr>) = final_state s' r"
  by (cases "steps r") (simp_all add: final_state_def)

lemma run_from_final:
  "(n \<noteq> code_parser \<Longrightarrow> messages s \<noteq> []) \<Longrightarrow>
   length (messages (final_state s (run_from b l k n s)))
     = length (messages s) + length (steps (run_from b l k n s))
   \<and> (iteration s < max_iterations s \<longrightarrow> raised (run_from b l k n s) = None \<longrightarrow>
        iteration (final_state s (run_from b l k n s)) = max_iterations s)"
proof (induction l k n s rule: run_from_cases[where b = b])
  case (budget k n s)
  then show ?case by (simp add: final_state_def)
next
  case (agent l k n s t n')
  then show ?case by (simp add: final_state_cons)
next
  case (stop l k s)
  then show ?case by (simp add: final_state_def apply_update_def planner_agent_def Let_def)
next
  case (loop l k s)
  then show ?case by (simp add: final_state_cons apply_update_def planner_agent_def Let_def)
qed

lemma run_from_counter:
  "(n \<noteq> code_parser \<Longrightarrow> messages s \<noteq> []) \<Longrightarrow> iteration s < max_iterations s \<Longrightarrow>
   counter_ok (iteration s) (max_iterations s) (steps (run_from b l k n s))"
  by (induction l k n s rule: run_from_cases[where b = b])
     (simp_all add: apply_update_def planner_agent_def Let_def)

lemma run_node_counter_free:
  "run_node (\<lambda>_. f) k n s = Inr (u, Suc k) \<Longrightarrow> n \<noteq> planner \<Longrightarrow> run_node (\<lambda>_. f) k2 n s = Inr (u, Suc k2)"
  by (cases n)
    (auto simp: code_parser_agent_def bug_detection_agent_def bug_explainer_agent_def
      socratic_guide_agent_def refiner_agent_def respond_def call_gemini_def
      split: sum.splits prod.splits)

lemma run_from_counter_free:
  "(n \<noteq> code_parser \<Longrightarrow> messages s \<noteq> []) \<Longrightarrow>
   steps (run_from (\<lambda>_. f) l k n s) = steps (run_from (\<lambda>_. f) l k2 n s)
   \<and> raised (run_from (\<lambda>_. f) l k n s) = raised (run_from (\<lambda>_. f) l k2 n s)"
proof (induction l k n s arbitrary: k2 rule: run_from_cases[where b = "\<lambda>_. f"])
  case (budget k n s)
  then show ?case by (simp add: run_from.simps)
next
  case (agent l k n s t n')
  let ?u = "\<lparr>upd_messages = [AIMessage t], upd_iteration = None\<rparr>"
  from run_node_counter_free[OF agent(7) agent(1)]
  have "run_node (\<lambda>_. f) k2 n s = Inr (?u, Suc k2)" .
  then have "run_from (\<lambda>_. f) (Suc l) k2 n s =
       (run_from (\<lambda>_. f) l (Suc k2) n' (s\<lparr>messages := messages s @ [AIMessage t]\<rparr>))
       \<lparr>steps := (n, ?u, s\<lparr>messages := messages s @ [AIMessage t]\<rparr>)
                 # steps (run_from (\<lambda>_. f) l (Suc k2) n' (s\<lparr>messages := messages s @ [AIMessage t]\<rparr>))\<rparr>"
    by (simp add: run_from.simps agent(3) apply_update_def Let_def)
  with agent(8) agent(9)[of "Suc k2"] show ?case by simp
next
  case (stop l k s)
  with run_from_planner_stop[of s "\<lambda>_. f" l k2] show ?case by simp
next
  case (loop l k s)
  with run_from_planner_loop[of s "\<lambda>_. f" l k2] show ?case by simp
qed

subsection \<open>A run from the initial state\<close>

lemma map_fst_stream: "map fst (stream_outputs r) = map fst (steps r)"
  by (simp add: stream_outputs_def case_prod_beta)

lemma length_stream: "length (stream_outputs r) = length (steps r)"
  by (simp add: stream_outputs_def)

lemma length_cycles: "length (concat (replicate n pipeline)) = 6 * n"
  by (induction n) (simp_all add: pipeline_def)

lemma run_nodes:
  assumes "0 < N"
  shows "map fst (steps (run b l k (initial_state c N))) = take l (concat (replicate (nat N) pipeline))"
    and "raised (run b l k (initial_state c N)) =
      (if l < 6 * nat N then Some GraphRecursionError else None)"
proof -
  from assms obtain j where j: "nat N = Suc j" by (cases "nat N") auto
  have "map fst (steps (run_from b l k code_parser (initial_state c N))) =
      take l (drop (6 - rank code_parser) pipeline
      @ concat (replicate (nat (max_iterations (initial_state c N) - iteration (initial_state c N)) - 1) pipeline))
    \<and> raised (run_from b l k code_parser (initial_state c N)) =
     (if l < rank code_parser + 6 * (nat (max_iterations (initial_state c N) - iteration (initial_state c N)) - 1)
      then Some GraphRecursionError else None)"
    by (rule run_from_nodes) (use assms in \<open>simp_all add: initial_state_def\<close>)
  then show "map fst (steps (run b l k (initial_state c N))) = take l (concat (replicate (nat N) pipeline))"
    and "raised (run b l k (initial_state c N)) =
      (if l < 6 * nat N then Some GraphRecursionError else None)"
    by (simp_all add: run_def initial_state_def j)
qed

lemma run_length:
  assumes "0 < N"
  shows "length (steps (run b l k (initial_state c N))) = min l (6 * nat N)"
proof -
  have "length (steps (run b l k (initial_state c N)))
      = length (map fst (steps (run b l k (initial_state c N))))"
    by simp
  also have "\<dots> = length (take l (concat (replicate (nat N) pipeline)))"
    by (simp only: run_nodes(1)[OF assms])
  also have "\<dots> = min l (6 * nat N)"
    by (simp add: length_cycles min.commute)
  finally show ?thesis .
qed

lemma run_no_index_error: "raised (run b l k (initial_state c N)) \<noteq> Some IndexError"
  unfolding run_def by (rule run_from_no_index_error) simp

lemma run_final_messages:
  "length (messages (final_state (initial_state c N) (run b l k (initial_state c N)))) =
     length (steps (run b l k (initial_state c N)))"
proof -
  have "length (messages (final_state (initial_state c N) (run b l k (initial_state c N)))) =
      length (messages (initial_state c N)) + length (steps (run b l k (initial_state c N)))"
    unfolding run_def using run_from_final[of code_parser "initial_state c N" b l k] by simp
  then show ?thesis by (simp add: initial_state_def)
qed

text \<open>A run whose passes fit the step budget completes all of them.\<close>

lemma run_within_budget:
  assumes "0 < N" "6 * nat N \<le> l"
  shows "raised (run b l k (initial_state c N)) = None
     \<and> map fst (stream_outputs (run b l k (initial_state c N))) = concat (replicate (nat N) pipeline)
     \<and> length (stream_outputs (run b l k (initial_state c N))) = 6 * nat N
     \<and> length (messages (final_state (initial_state c N) (run b l k (initial_state c N)))) = 6 * nat N"
  using assms
  by (simp add: run_nodes map_fst_stream length_stream run_length run_final_messages length_cycles)

subsection \<open>Unfolding a run node by node\<close>

text \<open>One equation per node, for evaluating a run on a concrete input.\<close>

lemma snd_respond: "snd (respond b k p) = Suc k"
  by (simp add: respond_def call_gemini_def split: sum.splits)

lemma steps_code_parser:
  "0 < l \<Longrightarrow> steps (run_from b l k code_parser s) =
     (code_parser, fst (respond b k (code_parser_prompt (code s))),
        apply_update s (fst (respond b k (code_parser_prompt (code s)))))
     # steps (run_from b (l - 1) (Suc k) bug_detector
          (apply_update s (fst (respond b k (code_parser_prompt (code s))))))"
  using snd_respond[of b k "code_parser_prompt (code s)"]
  by (cases l; cases "respond b k (code_parser_prompt (code s))")
     (simp_all add: run_from.simps code_parser_agent_def Let_def)

lemma steps_bug_detector:
  "0 < l \<Longrightarrow> messages s \<noteq> [] \<Longrightarrow> steps (run_from b l k bug_detector s) =
     (bug_detector, fst (respond b k (bug_detection_prompt (code s) (content (last (messages s))))),
        apply_update s (fst (respond b k (bug_detection_prompt (code s) (content (last (messages s)))))))
     # steps (run_from b (l - 1) (Suc k) bug_explainer
          (apply_update s (fst (respond b k (bug_detection_prompt (code s) (content (last (messages s))))))))"
  using snd_respond[of b k "bug_detection_prompt (code s) (content (last (messages s)))"]
  by (cases l; cases "respond b k (bug_detection_prompt (code s) (content (last (messages s))))";
      cases "messages s")
     (simp_all add: run_from.simps bug_detection_agent_def last_message_def Let_def)

lemma steps_bug_explainer:
  "0 < l \<Longrightarrow> messages s \<noteq> [] \<Longrightarrow> steps (run_from b l k bug_explainer s) =
     (bug_explainer, fst (respond b k (bug_explainer_prompt (content (last (messages s))))),
        apply_update s (fst (respond b k (bug_explainer_prompt (content (last (messages s)))))))
     # steps (run_from b (l - 1) (Suc k) socratic_guide
          (apply_update s (fst (respond b k (bug_explainer_prompt (content (last (messages s))))))))"
  using snd_respond[of b k "bug_explainer_prompt (content (last (messages s)))"]
  by (cases l; cases "respond b k (bug_explainer_prompt (content (last (messages s))))";
      cases "messages s")
     (simp_all add: run_from.simps bug_explainer_agent_def last_message_def Let_def)

lemma steps_socratic_guide:
  "0 < l \<Longrightarrow> messages s \<noteq> [] \<Longrightarrow> steps (run_from b l k socratic_guide s) =
     (socratic_guide, fst (respond b k (socratic_guide_prompt (content (last (messages s))))),
        apply_update s (fst (respond b k (socratic_guide_prompt (content (last (messages s)))))))
     # steps (run_from b (l - 1) (Suc k) refiner
          (apply_update s (fst (respond b k (socratic_guide_prompt (content (last (messages s))))))))"
  using snd_respond[of b k "socratic_guide_prompt (content (last (messages s)))"]
  by (cases l; cases "respond b k (socratic_guide_prompt (content (last (messages s))))";
      cases "messages s")
     (simp_all add: run_from.simps socratic_guide_agent_def last_message_def Let_def)

lemma steps_refiner:
  "0 < l \<Longrightarrow> messages s \<noteq> [] \<Longrightarrow> steps (run_from b l k refiner s) =
     (refiner, fst (respond b k (refiner_prompt (content (last (messages s))))),
        apply_update s (fst (respond b k (refiner_prompt (content (last (messages s)))))))
     # steps (run_from b (l - 1) (Suc k) planner
          (apply_update s (fst (respond b k (refiner_prompt (content (last (messages s))))))))"
  using snd_respond[of b k "refiner_prompt (content (last (messages s)))"]
  by (cases l; cases "respond b k (refiner_prompt (content (last (messages s))))";
      cases "messages s")
     (simp_all add: run_from.simps refiner_agent_def last_message_def Let_def)

lemma steps_planner:
  "0 < l \<Longrightarrow> steps (run_from b l k planner s) =
     (planner, planner_agent s, apply_update s (planner_agent s))
     # (if iteration s + 1 \<ge> max_iterations s then []
        else steps (run_from b (l - 1) k code_parser (apply_update s (planner_agent s))))"
  by (cases l) (simp_all add: run_from_planner_stop run_from_planner_loop)

lemmas steps_unfold = steps_code_parser steps_bug_detector steps_bug_explainer
  steps_socratic_guide steps_refiner steps_planner

subsection \<open>The handler\<close>



lemma main_ignores_code_input:
  "main b k key slider x submitted st = main b k key slider y submitted st"
  by (simp add: main_def)

text \<open>After a completed run the history ends with the current record, twice.\<close>

lemma main_history:
  assumes "submitted" "strip (sess_code (current_session st)) \<noteq> []" "truthy key"
  shows "session_history (fst (main b k key slider code_input submitted st)) =
     filter (\<lambda>s. sess_code s \<noteq> sess_code (current_session st)) (session_history st)
     @ [(current_session st)\<lparr>sess_messages := []\<rparr>, (current_session st)\<lparr>sess_messages := []\<rparr>]"
  using assms
  by (simp add: main_def Let_def initial_state_def split: prod.splits)

lemma display_outputs_no_failure:
  "display_outputs st outs = (final, evs) \<Longrightarrow> \<not> list_ex is_failure_report evs"
proof (induction outs arbitrary: st final evs)
  case Nil
  then show ?case by (cases st) simp
next
  case (Cons x outs)
  obtain n u where x: "x = (n, u)" by (cases x)
  obtain cur cnt where st: "st = (cur, cnt)" by (cases st)
  show ?case
  proof (cases "upd_messages u")
    case Nil
    with Cons x st show ?thesis by simp
  next
    case (Cons m ms)
    with Cons.prems x st obtain cur' cnt' evs' where
      "display_outputs (cur', cnt') outs = (final, evs')"
      "evs = AgentMessage n (content (last (upd_messages u))) cur' # evs'"
      by (auto simp: Let_def split: prod.splits)
    with Cons.IH show ?thesis by auto
  qed
qed

text \<open>Up to four cycles the handler shows no failure; with more it shows the recursion
  error.\<close>

lemma main_no_failure_report:
  assumes "truthy key" "0 < slider" "6 * nat slider \<le> recursion_limit"
  shows "\<not> list_ex is_failure_report (fst (snd (main b k key slider code_input submitted st)))"
proof -
  have r: "raised (run b recursion_limit k (initial_state c slider)) = None" for c
    using assms(2,3) by (simp add: run_nodes(2))
  show ?thesis
    using assms(1)
    by (auto simp: main_def Let_def r split: prod.splits dest: display_outputs_no_failure)
qed

lemma main_recursion_error:
  assumes "truthy key" "submitted" "strip (sess_code (current_session st)) \<noteq> []"
    "recursion_limit < 6 * nat slider"
  shows "list_ex is_failure_report (fst (snd (main b k key slider code_input submitted st)))"
proof -
  from assms(4) have "0 < slider" by (cases "0 < slider") simp_all
  with assms(4) have r: "raised (run b recursion_limit k (initial_state c slider))
      = Some GraphRecursionError" for c
    by (simp add: run_nodes(2))
  show ?thesis
    using assms(1,2,3)
    by (auto simp: main_def Let_def r split: prod.splits)
qed

section \<open>The claims\<close>

text \<open>
  C1 says that every \<open>N > 0\<close> gives exactly \<open>N\<close> full passes and \<open>6N\<close> outputs. The slider
  of line 309 offers up to five cycles, but the graph is compiled and run with no
  configuration, so a run gets the library's 25 steps: with five cycles and the division
  sample the run does not reach its thirty outputs. It ends with
  \<^verbatim>\<open>GraphRecursionError\<close> after at most 25 of them, in the order of the pipeline as far
  as it got, and the handler shows the failure of line 485. (Up to four cycles the claim
  holds: lemma \<open>run_within_budget\<close>.)
\<close>

theorem five_cycles_hit_recursion_limit:
  "raised (run (\<lambda>k p. Inr (str ''ok'')) recursion_limit 0 (initial_state division_sample 5))
     = Some GraphRecursionError
   \<and> length (stream_outputs
        (run (\<lambda>k p. Inr (str ''ok'')) recursion_limit 0 (initial_state division_sample 5))) \<le> 25
   \<and> length (stream_outputs
        (run (\<lambda>k p. Inr (str ''ok'')) recursion_limit 0 (initial_state division_sample 5))) < 6 * 5
   \<and> map fst (stream_outputs
        (run (\<lambda>k p. Inr (str ''ok'')) recursion_limit 0 (initial_state division_sample 5)))
       = take 25 (concat (replicate 5 pipeline))
   \<and> list_ex is_failure_report
        (fst (snd (main (\<lambda>k p. Inr (str ''ok'')) 0 (Some (str ''key'')) 5 division_sample True
           (fresh_session_state
              \<lparr>current_session := \<lparr>sess_code = division_sample, sess_messages = []\<rparr>\<rparr>))))"
proof -
  let ?b = "\<lambda>(k::nat) (p::pystr). Inr (str ''ok'') :: pystr + pystr"
  let ?r = "run ?b recursion_limit 0 (initial_state division_sample 5)"
  have 1: "raised ?r = Some GraphRecursionError"
    using run_nodes(2)[of 5 ?b recursion_limit 0 division_sample]
    by (simp add: recursion_limit_def)
  have 2: "length (stream_outputs ?r) = 25"
    using run_length[of 5 ?b recursion_limit 0 division_sample]
    by (simp add: length_stream recursion_limit_def)
  have 3: "map fst (stream_outputs ?r) = take 25 (concat (replicate 5 pipeline))"
    using run_nodes(1)[of 5 ?b recursion_limit 0 division_sample]
    by (simp add: map_fst_stream recursion_limit_def)
  have ne: "strip division_sample \<noteq> []"
    by (simp add: strip_def division_sample_def str_def NL_def is_space_def)
  have 4: "list_ex is_failure_report
        (fst (snd (main ?b 0 (Some (str ''key'')) 5 division_sample True
           (fresh_session_state
              \<lparr>current_session := \<lparr>sess_code = division_sample, sess_messages = []\<rparr>\<rparr>))))"
    by (rule main_recursion_error) (use ne in \<open>simp_all add: recursion_limit_def str_def\<close>)
  from 1 2 3 4 show ?thesis by simp
qed

text \<open>
  C2 says that a failing backend call ends the run at once with a failure, keeping only
  the outputs before it. The code does not do that: \<^verbatim>\<open>call_gemini\<close> catches the exception
  and returns a text. With two cycles and a backend whose eighth call (the one of step 3
  of cycle 2) fails, the run still raises nothing and yields 12 outputs, not 8; the ninth
  is the error text, steps 4 to 6 of that cycle follow it, and the handler shows no
  failure report.
\<close>

theorem backend_failure_counterexample:
  "raised (run (\<lambda>k p. if k = 7 then Inl (str ''quota'') else Inr (str ''ok'')) recursion_limit 0
        (initial_state division_sample 2)) = None
   \<and> length (stream_outputs
        (run (\<lambda>k p. if k = 7 then Inl (str ''quota'') else Inr (str ''ok'')) recursion_limit 0
          (initial_state division_sample 2))) = 12
   \<and> length (stream_outputs
        (run (\<lambda>k p. if k = 7 then Inl (str ''quota'') else Inr (str ''ok'')) recursion_limit 0
          (initial_state division_sample 2))) \<noteq> 8
   \<and> stream_outputs
        (run (\<lambda>k p. if k = 7 then Inl (str ''quota'') else Inr (str ''ok'')) recursion_limit 0
          (initial_state division_sample 2)) ! 8
       = (bug_explainer,
          \<lparr>upd_messages = [AIMessage (str ''Error calling Gemini API: '' @ str ''quota'')],
            upd_iteration = None\<rparr>)
   \<and> map fst (drop 9 (stream_outputs
        (run (\<lambda>k p. if k = 7 then Inl (str ''quota'') else Inr (str ''ok'')) recursion_limit 0
          (initial_state division_sample 2))))
       = [socratic_guide, refiner, planner]
   \<and> \<not> list_ex is_failure_report
         (fst (snd (main (\<lambda>k p. if k = 7 then Inl (str ''quota'') else Inr (str ''ok'')) 0
            (Some (str ''key'')) 2 division_sample True
            (fresh_session_state
               \<lparr>current_session := \<lparr>sess_code = division_sample, sess_messages = []\<rparr>\<rparr>))))"
proof -
  let ?b = "\<lambda>(k::nat) (p::pystr). if k = 7 then Inl (str ''quota'') else Inr (str ''ok'') :: pystr + pystr"
  let ?r = "run ?b recursion_limit 0 (initial_state division_sample 2)"
  have 1: "raised ?r = None"
    using run_nodes(2)[of 2 ?b recursion_limit 0 division_sample]
    by (simp add: recursion_limit_def)
  have 2: "length (stream_outputs ?r) = 12"
    using run_length[of 2 ?b recursion_limit 0 division_sample]
    by (simp add: length_stream recursion_limit_def)
  have 3: "stream_outputs ?r ! 8
       = (bug_explainer,
          \<lparr>upd_messages = [AIMessage (str ''Error calling Gemini API: '' @ str ''quota'')],
            upd_iteration = None\<rparr>)"
    by (simp add: run_def initial_state_def stream_outputs_def steps_unfold respond_def
        call_gemini_def apply_update_def planner_agent_def Let_def recursion_limit_def)
  have 4: "map fst (drop 9 (stream_outputs ?r)) = [socratic_guide, refiner, planner]"
    by (simp add: run_def initial_state_def stream_outputs_def steps_unfold respond_def
        call_gemini_def apply_update_def planner_agent_def Let_def recursion_limit_def)
  have 5: "\<not> list_ex is_failure_report
         (fst (snd (main ?b 0 (Some (str ''key'')) 2 division_sample True
            (fresh_session_state
               \<lparr>current_session := \<lparr>sess_code = division_sample, sess_messages = []\<rparr>\<rparr>))))"
    by (rule main_no_failure_report) (simp_all add: recursion_limit_def str_def)
  from 1 2 3 4 5 show ?thesis by simp
qed

text \<open>
  C2, amended. When the backend fails at the call a step makes, the step returns the text
  \<^verbatim>\<open>Error calling Gemini API: \<close> followed by the exception's message as its one
  message, like any other response, and the run goes on with the next step. A backend
  failure never ends a run: whenever the \<open>6N\<close> steps of the run fit the step budget, the
  run raises nothing and yields all \<open>6N\<close> outputs, whatever the backend does, and with the
  program's budget and up to four cycles the handler reports no failure.
\<close>

theorem backend_failure_becomes_message:
  assumes "0 < N" "6 * nat N \<le> l" "\<forall>p. b j p = Inl e" "n \<noteq> planner"
    "n = code_parser \<or> messages s \<noteq> []"
    "truthy key" "0 < slider" "6 * nat slider \<le> recursion_limit"
  shows "run_node b j n s =
           Inr (\<lparr>upd_messages = [AIMessage (str ''Error calling Gemini API: '' @ e)],
                 upd_iteration = None\<rparr>, Suc j)
     \<and> (\<exists>n'. next_target n (apply_update s
            \<lparr>upd_messages = [AIMessage (str ''Error calling Gemini API: '' @ e)],
              upd_iteration = None\<rparr>) = Node n')
     \<and> raised (run b l k (initial_state c N)) = None
     \<and> length (stream_outputs (run b l k (initial_state c N))) = 6 * nat N
     \<and> \<not> list_ex is_failure_report (fst (snd (main b k key slider code_input submitted st)))"
proof -
  from assms(3,4,5) have "run_node b j n s =
           Inr (\<lparr>upd_messages = [AIMessage (str ''Error calling Gemini API: '' @ e)],
                 upd_iteration = None\<rparr>, Suc j)"
    by (cases n; cases "messages s")
      (auto simp: code_parser_agent_def bug_detection_agent_def bug_explainer_agent_def
        socratic_guide_agent_def refiner_agent_def respond_def call_gemini_def last_message_def)
  moreover from assms(4) next_target_agent[of n] have "\<exists>n'. next_target n (apply_update s
            \<lparr>upd_messages = [AIMessage (str ''Error calling Gemini API: '' @ e)],
              upd_iteration = None\<rparr>) = Node n'"
    by blast
  ultimately show ?thesis
    using assms(1,2,6,7,8) run_within_budget[of N l b k c]
    by (simp add: main_no_failure_report)
qed

theorem backend_failure_becomes_message_witness:
  "run_node (\<lambda>k p. if k = 7 then Inl (str ''quota'') else Inr (str ''ok'')) 7 bug_explainer
      \<lparr>code = division_sample, messages = [AIMessage (str ''ok'')], iteration = 1,
        max_iterations = 2\<rparr> =
           Inr (\<lparr>upd_messages = [AIMessage (str ''Error calling Gemini API: '' @ str ''quota'')],
                 upd_iteration = None\<rparr>, 8)
     \<and> raised (run (\<lambda>k p. if k = 7 then Inl (str ''quota'') else Inr (str ''ok'')) 25 0
          (initial_state division_sample 2)) = None
     \<and> length (stream_outputs (run (\<lambda>k p. if k = 7 then Inl (str ''quota'') else Inr (str ''ok''))
          25 0 (initial_state division_sample 2))) = 12
     \<and> \<not> list_ex is_failure_report
         (fst (snd (main (\<lambda>k p. if k = 7 then Inl (str ''quota'') else Inr (str ''ok'')) 0
            (Some (str ''key'')) 2 division_sample True
            (fresh_session_state
               \<lparr>current_session := \<lparr>sess_code = division_sample, sess_messages = []\<rparr>\<rparr>))))"
  using backend_failure_becomes_message[where N = 2 and l = 25
      and b = "\<lambda>k p. if k = 7 then Inl (str ''quota'') else Inr (str ''ok'')" and j = 7
      and e = "str ''quota''" and n = bug_explainer
      and s = "\<lparr>code = division_sample, messages = [AIMessage (str ''ok'')], iteration = 1,
        max_iterations = 2\<rparr>"
      and key = "Some (str ''key'')" and slider = 2 and k = 0 and c = division_sample
      and code_input = division_sample and submitted = True
      and st = "fresh_session_state
               \<lparr>current_session := \<lparr>sess_code = division_sample, sess_messages = []\<rparr>\<rparr>"]
  by (simp add: recursion_limit_def str_def)




text \<open>
  C4. With \<open>0 < max_iterations\<close> (the invariant of the data model, which the slider of
  line 309 keeps), the counter starts at 0, every step but the planner's leaves it as it
  is, the planner adds exactly one, and no state of the run has a count above
  \<open>max_iterations\<close>, whatever the step budget. A run whose passes fit the budget ends with
  the count equal to \<open>max_iterations\<close>.
\<close>

theorem iteration_counts_passes:
  assumes "0 < N"
  shows "iteration (initial_state c N) = 0
     \<and> counter_ok 0 N (steps (run b l k (initial_state c N)))
     \<and> (6 * nat N \<le> l \<longrightarrow>
          iteration (final_state (initial_state c N) (run b l k (initial_state c N))) = N)"
proof -
  have "counter_ok (iteration (initial_state c N)) (max_iterations (initial_state c N))
      (steps (run_from b l k code_parser (initial_state c N)))"
    by (rule run_from_counter) (use assms in \<open>simp_all add: initial_state_def\<close>)
  moreover have "6 * nat N \<le> l \<longrightarrow>
      iteration (final_state (initial_state c N) (run b l k (initial_state c N))) = N"
  proof
    assume "6 * nat N \<le> l"
    with assms have "raised (run b l k (initial_state c N)) = None"
      by (simp add: run_nodes(2))
    with run_from_final[of code_parser "initial_state c N" b l k] assms
    show "iteration (final_state (initial_state c N) (run b l k (initial_state c N))) = N"
      by (simp add: run_def initial_state_def)
  qed
  ultimately show ?thesis by (simp add: run_def initial_state_def)
qed

theorem iteration_counts_passes_witness:
  "iteration (initial_state division_sample 2) = 0
     \<and> counter_ok 0 2 (steps (run (\<lambda>k p. Inr (str ''ok'')) 25 0 (initial_state division_sample 2)))
     \<and> iteration (final_state (initial_state division_sample 2)
          (run (\<lambda>k p. Inr (str ''ok'')) 25 0 (initial_state division_sample 2))) = 2"
  using iteration_counts_passes[of 2 division_sample "\<lambda>k p. Inr (str ''ok'')" 25 0]
  by simp

text \<open>
  C5. The planner emits the cycles-reached text exactly when the incremented count has
  reached the maximum and the next-cycle text exactly when it is below; it returns the
  incremented count; and the edge out of the planner goes back to code_parser exactly
  when the incremented count is below the maximum, to END otherwise.
\<close>

theorem planner_decides:
  "(upd_messages (planner_agent s) = [HumanMessage cycles_reached_text])
      = (max_iterations s \<le> iteration s + 1)
   \<and> (upd_messages (planner_agent s) = [HumanMessage next_cycle_text])
      = (iteration s + 1 < max_iterations s)
   \<and> upd_iteration (planner_agent s) = Some (iteration s + 1)
   \<and> (next_target planner (apply_update s (planner_agent s)) = Node code_parser)
      = (iteration s + 1 < max_iterations s)
   \<and> (next_target planner (apply_update s (planner_agent s)) = END)
      = (max_iterations s \<le> iteration s + 1)"
proof -
  have ne: "cycles_reached_text \<noteq> next_cycle_text"
    by (simp add: cycles_reached_text_def next_cycle_text_def)
  then show ?thesis
    by (auto simp: planner_agent_def Let_def apply_update_def should_continue_def)
qed

text \<open>
  C6. Along the whole run from the initial state, whatever the step budget, and for any
  single node on any state, a step keeps \<^verbatim>\<open>code\<close> and \<^verbatim>\<open>max_iterations\<close>, appends exactly
  the one message of its update to the end of \<^verbatim>\<open>messages\<close> (so the log only grows, in
  order), and changes \<^verbatim>\<open>iteration\<close> only in the planner.
\<close>

theorem steps_keep_frame:
  "frame_ok (initial_state c N) (steps (run b l k (initial_state c N)))
   \<and> (case run_node b k n s of
        Inl e \<Rightarrow> True
      | Inr (u, k') \<Rightarrow> frame_ok s [(n, u, apply_update s u)])"
proof -
  have 1: "frame_ok (initial_state c N) (steps (run b l k (initial_state c N)))"
    unfolding run_def by (rule run_from_frame) simp
  have 2: "(case run_node b k n s of
        Inl e \<Rightarrow> True
      | Inr (u, k') \<Rightarrow> frame_ok s [(n, u, apply_update s u)])"
    by (cases n)
      (auto simp: code_parser_agent_def bug_detection_agent_def bug_explainer_agent_def
        socratic_guide_agent_def refiner_agent_def respond_def planner_agent_def Let_def
        apply_update_def split: sum.splits prod.splits)
  from 1 2 show ?thesis by simp
qed

theorem steps_keep_frame_witness:
  "frame_ok (initial_state division_sample 2)
     (steps (run (\<lambda>k p. Inr (str ''ok'')) 25 0 (initial_state division_sample 2)))
   \<and> frame_ok (initial_state division_sample 2)
       [(planner, planner_agent (initial_state division_sample 2),
         apply_update (initial_state division_sample 2)
           (planner_agent (initial_state division_sample 2)))]"
  using steps_keep_frame[where c = division_sample and N = 2 and b = "\<lambda>k p. Inr (str ''ok'')"
      and l = 25 and k = 0 and n = planner and s = "initial_state division_sample 2"]
  by simp

text \<open>
  C7 says the history holds at most one record per code string. The handler removes the
  records of the same code and appends the current one (lines 490-492), and then appends
  it once more (lines 514-517): after the first completed run of the division sample in
  a fresh session, the history holds two records of that code.
\<close>

theorem history_keeps_two_records:
  "session_history (fst (main (\<lambda>k p. Inr (str ''ok'')) 0 (Some (str ''key'')) 1 division_sample True
      (fresh_session_state
         \<lparr>current_session := \<lparr>sess_code = division_sample, sess_messages = []\<rparr>\<rparr>)))
   = [\<lparr>sess_code = division_sample, sess_messages = []\<rparr>,
      \<lparr>sess_code = division_sample, sess_messages = []\<rparr>]
   \<and> \<not> distinct (map sess_code (session_history (fst (main (\<lambda>k p. Inr (str ''ok'')) 0
      (Some (str ''key'')) 1 division_sample True
      (fresh_session_state
         \<lparr>current_session := \<lparr>sess_code = division_sample, sess_messages = []\<rparr>\<rparr>)))))"
proof -
  have "strip division_sample \<noteq> []"
    by (simp add: strip_def division_sample_def str_def NL_def is_space_def)
  then have "session_history (fst (main (\<lambda>k p. Inr (str ''ok'')) 0 (Some (str ''key'')) 1
      division_sample True
      (fresh_session_state
         \<lparr>current_session := \<lparr>sess_code = division_sample, sess_messages = []\<rparr>\<rparr>)))
   = [\<lparr>sess_code = division_sample, sess_messages = []\<rparr>,
      \<lparr>sess_code = division_sample, sess_messages = []\<rparr>]"
    using main_history[where submitted = True
      and st = "fresh_session_state
         \<lparr>current_session := \<lparr>sess_code = division_sample, sess_messages = []\<rparr>\<rparr>"
      and key = "Some (str ''key'')" and b = "\<lambda>k p. Inr (str ''ok'')" and k = 0 and slider = 1
      and code_input = division_sample]
    by (simp add: fresh_session_state_def str_def)
  then show ?thesis by simp
qed

text \<open>
  C8. With a backend that is a function of the prompt alone, two runs on the same code
  and the same maximum yield the same outputs in the same order and end the same way,
  whatever the number of backend calls made before each run.
\<close>

theorem runs_agree:
  "stream_outputs (run (\<lambda>_. f) l k1 (initial_state c N))
     = stream_outputs (run (\<lambda>_. f) l k2 (initial_state c N))
   \<and> raised (run (\<lambda>_. f) l k1 (initial_state c N))
     = raised (run (\<lambda>_. f) l k2 (initial_state c N))"
proof -
  have "steps (run_from (\<lambda>_. f) l k1 code_parser (initial_state c N))
      = steps (run_from (\<lambda>_. f) l k2 code_parser (initial_state c N))
    \<and> raised (run_from (\<lambda>_. f) l k1 code_parser (initial_state c N))
      = raised (run_from (\<lambda>_. f) l k2 code_parser (initial_state c N))"
    by (rule run_from_counter_free) simp
  then show ?thesis by (simp add: stream_outputs_def run_def)
qed

text \<open>
  C9. A run from the initial state raises no IndexError, whatever the backend and the
  step budget: every node that reads \<^verbatim>\<open>state['messages'][-1]\<close> runs on a state whose log
  is not empty.
\<close>

theorem last_message_never_fails:
  "raised (run b l k (initial_state c N)) \<noteq> Some IndexError
   \<and> reads_ok (initial_state c N) (steps (run b l k (initial_state c N)))"
proof -
  have "reads_ok (initial_state c N) (steps (run b l k (initial_state c N)))"
    unfolding run_def by (rule run_from_reads) simp
  then show ?thesis by (simp add: run_no_index_error)
qed

theorem last_message_never_fails_witness:
  "raised (run (\<lambda>k p. Inr (str ''ok'')) 25 0 (initial_state division_sample 2)) \<noteq> Some IndexError
   \<and> reads_ok (initial_state division_sample 2)
       (steps (run (\<lambda>k p. Inr (str ''ok'')) 25 0 (initial_state division_sample 2)))"
  using last_message_never_fails[of "\<lambda>k p. Inr (str ''ok'')" 25 0 division_sample 2]
  by simp

text \<open>
  C10. \<^verbatim>\<open>call_gemini\<close> always returns a text and counts one call. When the backend
  raises, the text is \<^verbatim>\<open>Error calling Gemini API: \<close> followed by the message, so it
  begins with \<^verbatim>\<open>Error calling Gemini API:\<close>. Whatever the backend does, a node that
  finds the message it reads returns an update: a backend error alone does not abort
  the step.
\<close>

theorem call_gemini_catches:
  assumes "b k p = Inl e" "n = code_parser \<or> messages s \<noteq> []"
  shows "call_gemini b k p = (str ''Error calling Gemini API: '' @ e, Suc k)
     \<and> prefix (str ''Error calling Gemini API:'') (fst (call_gemini b k p))
     \<and> (\<exists>t. call_gemini b' k' p' = (t, Suc k'))
     \<and> (\<exists>u j. run_node b' k' n s = Inr (u, j))"
proof -
  have 1: "call_gemini b k p = (str ''Error calling Gemini API: '' @ e, Suc k)"
    using assms(1) by (simp add: call_gemini_def)
  have 2: "\<exists>t. call_gemini b' k' p' = (t, Suc k')"
    by (simp add: call_gemini_def split: sum.splits)
  have 3: "\<exists>u j. run_node b' k' n s = Inr (u, j)"
  proof (cases "n = planner")
    case True
    then show ?thesis by simp
  next
    case False
    with run_node_agent[of n s b' k'] assms(2) show ?thesis by blast
  qed
  have 4: "prefix (str ''Error calling Gemini API:'') (str ''Error calling Gemini API: '' @ e)"
    by (simp add: str_def)
  from 1 2 3 4 show ?thesis by simp
qed

theorem call_gemini_catches_witness:
  "call_gemini (\<lambda>k p. Inl (str ''quota'')) 3 (str ''hello'')
       = (str ''Error calling Gemini API: '' @ str ''quota'', 4)
     \<and> prefix (str ''Error calling Gemini API:'')
         (fst (call_gemini (\<lambda>k p. Inl (str ''quota'')) 3 (str ''hello'')))
     \<and> (\<exists>t. call_gemini (\<lambda>k p. Inl (str ''quota'')) 3 (str ''hello'') = (t, 4))
     \<and> (\<exists>u j. run_node (\<lambda>k p. Inl (str ''quota'')) 3 code_parser
           (initial_state division_sample 2) = Inr (u, j))"
  using call_gemini_catches[where b = "\<lambda>k p. Inl (str ''quota'')" and k = 3 and p = "str ''hello''"
      and e = "str ''quota''" and n = code_parser and s = "initial_state division_sample 2"
      and b' = "\<lambda>k p. Inl (str ''quota'')" and k' = 3 and p' = "str ''hello''"]
  by (simp add: str_def)

end
